theory Spec2Isabelle
  imports Main
begin

section \<open>JavaScript values\<close>

text \<open>
  The functions of \<^verbatim>\<open>src/lib/agent-state-loader.ts\<close> take and return values typed
  \<^verbatim>\<open>any\<close>: request payloads and the parsed body of the agent's HTTP response. Such a
  value is what \<^verbatim>\<open>JSON.parse\<close> produces: null, a boolean, a number, a string, an
  array or a plain object. \<^verbatim>\<open>undefined\<close>, the result of reading an absent property
  and a possible payload, is \<open>None\<close> of \<open>js option\<close>.

  Scope of the value model: numbers are the safe integers of JavaScript, those of
  magnitude at most \<open>2 ^ 53 - 1\<close>, on which a Number is exact and prints as its plain
  decimal text; strings are lists of 8-bit code units; an
  object is the list of its own properties in enumeration order, and a read takes the
  last binding of a key, as \<^verbatim>\<open>JSON.parse\<close> does with a repeated key. What
  \<^verbatim>\<open>JSON.parse\<close> cannot produce (functions, big integers, cyclic structures,
  undefined inside an array or object) is outside the model: the state fetch client
  builds every agent state from a parsed response body or from the literals
  \<^verbatim>\<open>[]\<close> and \<^verbatim>\<open>{}\<close>.
\<close>

text \<open>\<^verbatim>\<open>Number.isSafeInteger\<close>, and the numbers of the model.\<close>

definition is_safe_integer :: "int \<Rightarrow> bool" where
  "is_safe_integer i = (- 9007199254740991 \<le> i \<and> i \<le> 9007199254740991)"

typedef safe_integer = "{i. is_safe_integer i}"
  morphisms integer_of safe_integer_of
  by (rule exI [of _ 0]) (simp add: is_safe_integer_def)

datatype js =
    JNull
  | JBool bool
  | JNum safe_integer
  | JStr string
  | JArr "js list"
  | JObj "(string \<times> js) list"

text \<open>The exceptions the code can meet, as values.\<close>

datatype error = AbortError | TypeError | SyntaxError | NetworkError string

text \<open>\<^verbatim>\<open>ToBoolean\<close>: the falsy values are undefined, null, false, 0 and the empty string.\<close>

fun truthy :: "js \<Rightarrow> bool" where
  "truthy JNull = False"
| "truthy (JBool b) = b"
| "truthy (JNum n) = (integer_of n \<noteq> 0)"
| "truthy (JStr s) = (s \<noteq> [])"
| "truthy (JArr xs) = True"
| "truthy (JObj kvs) = True"

fun to_boolean :: "js option \<Rightarrow> bool" where
  "to_boolean None = False"
| "to_boolean (Some v) = truthy v"

text \<open>The \<^verbatim>\<open>typeof\<close> operator.\<close>

fun typeof :: "js option \<Rightarrow> string" where
  "typeof None = ''undefined''"
| "typeof (Some JNull) = ''object''"
| "typeof (Some (JBool b)) = ''boolean''"
| "typeof (Some (JNum n)) = ''number''"
| "typeof (Some (JStr s)) = ''string''"
| "typeof (Some (JArr xs)) = ''object''"
| "typeof (Some (JObj kvs)) = ''object''"

text \<open>The own property of an object under a key: the last binding wins.\<close>

definition own_property :: "(string \<times> js) list \<Rightarrow> string \<Rightarrow> js option" where
  "own_property kvs k = map_of (rev kvs) k"

text \<open>
  The property read \<^verbatim>\<open>v.k\<close>, for a key \<open>k\<close> that no built-in prototype defines and that
  is neither \<^verbatim>\<open>length\<close> nor an array index (the source reads \<^verbatim>\<open>operationName\<close>,
  \<^verbatim>\<open>variables\<close>, \<^verbatim>\<open>data\<close>, \<^verbatim>\<open>threadId\<close>, \<^verbatim>\<open>agentName\<close>, \<^verbatim>\<open>messages\<close> and
  \<^verbatim>\<open>state\<close> this way). Reading a property of undefined or null throws a TypeError; an
  object answers with its own property; every other value has no such property.
\<close>

fun get_prop :: "js option \<Rightarrow> string \<Rightarrow> error + js option" where
  "get_prop None k = Inl TypeError"
| "get_prop (Some JNull) k = Inl TypeError"
| "get_prop (Some (JObj kvs)) k = Inr (own_property kvs k)"
| "get_prop (Some v) k = Inr None"

text \<open>The optional chain \<^verbatim>\<open>v?.k\<close>: undefined, without a throw, when \<open>v\<close> is undefined or null.\<close>

fun opt_get_prop :: "js option \<Rightarrow> string \<Rightarrow> error + js option" where
  "opt_get_prop None k = Inr None"
| "opt_get_prop (Some JNull) k = Inr None"
| "opt_get_prop (Some v) k = get_prop (Some v) k"

text \<open>\<^verbatim>\<open>a || b\<close> with a defined right operand: \<open>a\<close> when it is truthy, else \<open>b\<close>.\<close>

definition or_else :: "js option \<Rightarrow> js \<Rightarrow> js" where
  "or_else a b = (case a of None \<Rightarrow> b | Some v \<Rightarrow> if truthy v then v else b)"

section \<open>The platform's JSON functions\<close>

subsection \<open>\<^verbatim>\<open>JSON.stringify\<close>\<close>

text \<open>
  \<^verbatim>\<open>QuoteJSONString\<close> of ECMA-262: backspace, tab, line feed, form feed, carriage return,
  the double quote (code 34) and the backslash (code 92) get their two-character escape,
  any other code unit below 32 a six-character escape (backslash, u, 00 and two
  lower-case hexadecimal digits), and
  every other code unit stands for itself.
\<close>

definition hex_digit :: "nat \<Rightarrow> char" where
  "hex_digit d = (if d < 10 then char_of (48 + d) else char_of (87 + d))"

definition quote_char :: "char \<Rightarrow> string" where
  "quote_char c =
     (let n = of_char c :: nat in
      if n = 8 then [CHR 0x5C, CHR ''b'']
      else if n = 9 then [CHR 0x5C, CHR ''t'']
      else if n = 10 then [CHR 0x5C, CHR ''n'']
      else if n = 12 then [CHR 0x5C, CHR ''f'']
      else if n = 13 then [CHR 0x5C, CHR ''r'']
      else if n = 34 then [CHR 0x5C, CHR 0x22]
      else if n = 92 then [CHR 0x5C, CHR 0x5C]
      else if n < 32 then
        [CHR 0x5C, CHR ''u'', CHR ''0'', CHR ''0'', hex_digit (n div 16), hex_digit (n mod 16)]
      else [c])"

definition QuoteJSONString :: "string \<Rightarrow> string" where
  "QuoteJSONString s = CHR 0x22 # concat (map quote_char s) @ [CHR 0x22]"

text \<open>
  \<^verbatim>\<open>Number::toString\<close> on a safe integer: the decimal digits, after a minus sign if
  negative. The exponent form, which starts at the magnitude \<open>10 ^ 21\<close>, does not occur
  on a safe integer.
\<close>

definition digit_char :: "nat \<Rightarrow> char" where
  "digit_char d = char_of (48 + d)"

fun digits_of :: "nat \<Rightarrow> string" where
  "digits_of n =
     (if n < 10 then [digit_char n] else digits_of (n div 10) @ [digit_char (n mod 10)])"

definition Number_toString :: "safe_integer \<Rightarrow> string" where
  "Number_toString n =
     (if integer_of n < 0 then CHR ''-'' # digits_of (nat (- integer_of n))
      else digits_of (nat (integer_of n)))"

text \<open>
  \<^verbatim>\<open>JSON.stringify(value)\<close> without replacer or indentation: no white space between the
  tokens, array elements and object members in order, separated by commas.
\<close>

fun JSON_stringify :: "js \<Rightarrow> string"
  and stringify_elements :: "js list \<Rightarrow> string"
  and stringify_members :: "(string \<times> js) list \<Rightarrow> string" where
  "JSON_stringify JNull = ''null''"
| "JSON_stringify (JBool b) = (if b then ''true'' else ''false'')"
| "JSON_stringify (JNum n) = Number_toString n"
| "JSON_stringify (JStr s) = QuoteJSONString s"
| "JSON_stringify (JArr xs) = ''['' @ stringify_elements xs @ '']''"
| "JSON_stringify (JObj kvs) = ''{'' @ stringify_members kvs @ ''}''"
| "stringify_elements [] = []"
| "stringify_elements [x] = JSON_stringify x"
| "stringify_elements (x # y # ys) = JSON_stringify x @ '','' @ stringify_elements (y # ys)"
| "stringify_members [] = []"
| "stringify_members [(k, v)] = QuoteJSONString k @ '':'' @ JSON_stringify v"
| "stringify_members ((k, v) # m # ms) =
     QuoteJSONString k @ '':'' @ JSON_stringify v @ '','' @ stringify_members (m # ms)"

subsection \<open>\<^verbatim>\<open>JSON.parse\<close>\<close>

text \<open>
  A recursive-descent reader of the JSON grammar, for the texts whose value lies in the
  value model: \<open>None\<close> stands for the SyntaxError of \<^verbatim>\<open>JSON.parse\<close> and also for a
  text with a fraction, an exponent, an integer that is not safe or a four-digit escape
  above 255. The reader keeps
  the members of an object in the order of the text; an engine merges a repeated key
  and lists integer-like keys first, which changes nothing for a text written by
  \<^verbatim>\<open>JSON.stringify\<close> from an object, whose keys are distinct and already in that
  order.
\<close>

definition hex_value :: "char \<Rightarrow> nat option" where
  "hex_value c =
     (let n = of_char c :: nat in
      if 48 \<le> n \<and> n \<le> 57 then Some (n - 48)
      else if 97 \<le> n \<and> n \<le> 102 then Some (n - 87)
      else if 65 \<le> n \<and> n \<le> 70 then Some (n - 55)
      else None)"

definition hex4 :: "char \<Rightarrow> char \<Rightarrow> char \<Rightarrow> char \<Rightarrow> nat option" where
  "hex4 a b c d =
     (case (hex_value a, hex_value b, hex_value c, hex_value d) of
        (Some x, Some y, Some z, Some w) \<Rightarrow> Some (((x * 16 + y) * 16 + z) * 16 + w)
      | _ \<Rightarrow> None)"

definition unescape :: "char \<Rightarrow> char option" where
  "unescape e =
     (if e = CHR 0x22 then Some (CHR 0x22)
      else if e = CHR 0x5C then Some (CHR 0x5C)
      else if e = CHR ''/'' then Some (CHR ''/'')
      else if e = CHR ''b'' then Some (CHR 0x08)
      else if e = CHR ''f'' then Some (CHR 0x0C)
      else if e = CHR ''n'' then Some (CHR 0x0A)
      else if e = CHR ''r'' then Some (CHR 0x0D)
      else if e = CHR ''t'' then Some (CHR 0x09)
      else None)"

text \<open>The characters of a string after its opening quote, up to the closing quote.\<close>

fun parse_chars :: "string \<Rightarrow> (string \<times> string) option" where
  "parse_chars [] = None"
| "parse_chars (c # cs) =
     (if c = CHR 0x22 then Some ([], cs)
      else if c = CHR 0x5C then
        (case cs of
           [] \<Rightarrow> None
         | e # r \<Rightarrow>
             if e = CHR ''u'' then
               (case r of
                  a # b # c' # d # r' \<Rightarrow>
                    (case hex4 a b c' d of
                       None \<Rightarrow> None
                     | Some n \<Rightarrow>
                         if n < 256 then
                           (case parse_chars r' of
                              None \<Rightarrow> None
                            | Some (str, rest) \<Rightarrow> Some (char_of n # str, rest))
                         else None)
                | _ \<Rightarrow> None)
             else
               (case unescape e of
                  None \<Rightarrow> None
                | Some d \<Rightarrow>
                    (case parse_chars r of
                       None \<Rightarrow> None
                     | Some (str, rest) \<Rightarrow> Some (d # str, rest))))
      else if (of_char c :: nat) < 32 then None
      else (case parse_chars cs of
              None \<Rightarrow> None
            | Some (str, rest) \<Rightarrow> Some (c # str, rest)))"

definition is_digit :: "char \<Rightarrow> bool" where
  "is_digit c = (48 \<le> (of_char c :: nat) \<and> (of_char c :: nat) \<le> 57)"

definition digit_value :: "char \<Rightarrow> nat" where
  "digit_value c = of_char c - 48"

definition number_of_digits :: "string \<Rightarrow> nat" where
  "number_of_digits ds = foldl (\<lambda>acc c. 10 * acc + digit_value c) 0 ds"

text \<open>
  An integer literal: an optional minus sign, then \<^verbatim>\<open>0\<close> or a digit sequence without a
  leading zero.
\<close>

definition parse_number :: "string \<Rightarrow> (int \<times> string) option" where
  "parse_number s =
     (let negative = (s \<noteq> [] \<and> hd s = CHR ''-'');
          s1 = (if negative then tl s else s);
          ds = takeWhile is_digit s1;
          rest = dropWhile is_digit s1
      in if ds = [] then None
         else if hd ds = CHR ''0'' \<and> length ds > 1 then None
         else if rest \<noteq> [] \<and> hd rest \<in> {CHR ''.'', CHR ''e'', CHR ''E''} then None
         else Some (if negative then - int (number_of_digits ds)
                    else int (number_of_digits ds), rest))"

definition is_ws :: "char \<Rightarrow> bool" where
  "is_ws c = (c = CHR '' '' \<or> c = CHR 0x09 \<or> c = CHR 0x0A \<or> c = CHR 0x0D)"

definition skip_ws :: "string \<Rightarrow> string" where
  "skip_ws s = dropWhile is_ws s"

text \<open>
  Values, the elements of a non-empty array up to its closing bracket, and the members
  of a non-empty object up to its closing brace. The first argument bounds the depth of
  the descent; \<open>JSON_parse\<close> starts it at the length of the text, and
  \<open>JSON_parse_stringify\<close> below shows that this is enough for every text that
  \<open>JSON_stringify\<close> writes.
\<close>

fun parse_value :: "nat \<Rightarrow> string \<Rightarrow> (js \<times> string) option"
  and parse_elements :: "nat \<Rightarrow> string \<Rightarrow> (js list \<times> string) option"
  and parse_members :: "nat \<Rightarrow> string \<Rightarrow> ((string \<times> js) list \<times> string) option" where
  "parse_value 0 s = None"
| "parse_value (Suc n) s =
     (case skip_ws s of
        [] \<Rightarrow> None
      | c # cs \<Rightarrow>
          if c = CHR 0x22 then
            (case parse_chars cs of
               None \<Rightarrow> None
             | Some (str, r) \<Rightarrow> Some (JStr str, r))
          else if c = CHR ''['' then
            (case skip_ws cs of
               [] \<Rightarrow> None
             | d # ds \<Rightarrow>
                 if d = CHR '']'' then Some (JArr [], ds)
                 else (case parse_elements n cs of
                         None \<Rightarrow> None
                       | Some (xs, r) \<Rightarrow> Some (JArr xs, r)))
          else if c = CHR ''{'' then
            (case skip_ws cs of
               [] \<Rightarrow> None
             | d # ds \<Rightarrow>
                 if d = CHR ''}'' then Some (JObj [], ds)
                 else (case parse_members n cs of
                         None \<Rightarrow> None
                       | Some (kvs, r) \<Rightarrow> Some (JObj kvs, r)))
          else if take 4 (c # cs) = ''null'' then Some (JNull, drop 4 (c # cs))
          else if take 4 (c # cs) = ''true'' then Some (JBool True, drop 4 (c # cs))
          else if take 5 (c # cs) = ''false'' then Some (JBool False, drop 5 (c # cs))
          else (case parse_number (c # cs) of
                  None \<Rightarrow> None
                | Some (i, r) \<Rightarrow>
                    if is_safe_integer i then Some (JNum (safe_integer_of i), r)
                    else None))"
| "parse_elements 0 s = None"
| "parse_elements (Suc n) s =
     (case parse_value n s of
        None \<Rightarrow> None
      | Some (v, r) \<Rightarrow>
          (case skip_ws r of
             [] \<Rightarrow> None
           | c # cs \<Rightarrow>
               if c = CHR '','' then
                 (case parse_elements n cs of
                    None \<Rightarrow> None
                  | Some (vs, r') \<Rightarrow> Some (v # vs, r'))
               else if c = CHR '']'' then Some ([v], cs)
               else None))"
| "parse_members 0 s = None"
| "parse_members (Suc n) s =
     (case skip_ws s of
        [] \<Rightarrow> None
      | q # s1 \<Rightarrow>
          if q \<noteq> CHR 0x22 then None
          else
            (case parse_chars s1 of
               None \<Rightarrow> None
             | Some (k, s2) \<Rightarrow>
                 (case skip_ws s2 of
                    [] \<Rightarrow> None
                  | colon # s3 \<Rightarrow>
                      if colon \<noteq> CHR '':'' then None
                      else
                        (case parse_value n s3 of
                           None \<Rightarrow> None
                         | Some (v, r) \<Rightarrow>
                             (case skip_ws r of
                                [] \<Rightarrow> None
                              | c # cs \<Rightarrow>
                                  if c = CHR '','' then
                                    (case parse_members n cs of
                                       None \<Rightarrow> None
                                     | Some (kvs, r') \<Rightarrow> Some ((k, v) # kvs, r'))
                                  else if c = CHR ''}'' then Some ([(k, v)], cs)
                                  else None)))))"

definition JSON_parse :: "string \<Rightarrow> js option" where
  "JSON_parse s =
     (case parse_value (length s) s of
        None \<Rightarrow> None
      | Some (v, rest) \<Rightarrow> if skip_ws rest = [] then Some v else None)"

section \<open>Reading \<^verbatim>\<open>.length\<close>, comparing with zero, converting to a string\<close>

text \<open>
  The property read \<^verbatim>\<open>v.length\<close>: a TypeError on undefined and null, the count of
  code units of a string, the count of elements of an array, the own property of an
  object, and undefined on a boolean or a number. A count is a natural number; a
  property is a value or undefined.
\<close>

datatype length_value = Count nat | Property "js option"

fun js_length :: "js option \<Rightarrow> error + length_value" where
  "js_length None = Inl TypeError"
| "js_length (Some JNull) = Inl TypeError"
| "js_length (Some (JBool b)) = Inr (Property None)"
| "js_length (Some (JNum n)) = Inr (Property None)"
| "js_length (Some (JStr s)) = Inr (Count (length s))"
| "js_length (Some (JArr xs)) = Inr (Count (length xs))"
| "js_length (Some (JObj kvs)) = Inr (Property (own_property kvs ''length''))"

text \<open>
  \<^verbatim>\<open>ToString\<close>. An array is joined with commas, null elements giving the empty string.
  A plain object gives \<^verbatim>\<open>[object Object]\<close>, unless it has an own property
  \<^verbatim>\<open>toString\<close>: that property of a parsed value is not callable, it hides
  \<^verbatim>\<open>Object.prototype.toString\<close>, \<^verbatim>\<open>valueOf\<close> does not yield a primitive either, and
  the conversion throws a TypeError.
\<close>

fun ToString :: "js \<Rightarrow> error + string"
  and join_elements :: "js list \<Rightarrow> error + string" where
  "ToString JNull = Inr ''null''"
| "ToString (JBool b) = Inr (if b then ''true'' else ''false'')"
| "ToString (JNum n) = Inr (Number_toString n)"
| "ToString (JStr s) = Inr s"
| "ToString (JArr xs) = join_elements xs"
| "ToString (JObj kvs) =
     (if own_property kvs ''toString'' = None then Inr ''[object Object]''
      else Inl TypeError)"
| "join_elements [] = Inr []"
| "join_elements (x # xs) =
     (case (if x = JNull then Inr [] else ToString x) of
        Inl e \<Rightarrow> Inl e
      | Inr s \<Rightarrow>
          if xs = [] then Inr s
          else (case join_elements xs of
                  Inl e \<Rightarrow> Inl e
                | Inr t \<Rightarrow> Inr (s @ '','' @ t)))"

text \<open>
  The length interpolated into a template literal: a count prints in decimal (the counts
  of an engine's strings and arrays are safe integers), undefined prints as its name.
\<close>

fun template_ToString :: "length_value \<Rightarrow> error + string" where
  "template_ToString (Count n) = Inr (digits_of n)"
| "template_ToString (Property None) = Inr ''undefined''"
| "template_ToString (Property (Some v)) = ToString v"

text \<open>
  \<^verbatim>\<open>StringToNumber(s) > 0\<close>: the string is trimmed of white space and read as a
  \<^verbatim>\<open>StrNumericLiteral\<close>: a hexadecimal, octal or binary integer, or a signed decimal
  with optional fraction and exponent, or \<^verbatim>\<open>Infinity\<close>. The empty string is 0 and
  any other text is NaN. A decimal \<open>m * 10 ^ e\<close> is above zero as a Number when it does
  not round to zero, that is when it exceeds \<open>2 ^ -1075\<close>.
\<close>

definition is_StrWhiteSpaceChar :: "char \<Rightarrow> bool" where
  "is_StrWhiteSpaceChar c = ((of_char c :: nat) \<in> {9, 10, 11, 12, 13, 32, 160})"

definition trim :: "string \<Rightarrow> string" where
  "trim s = rev (dropWhile is_StrWhiteSpaceChar (rev (dropWhile is_StrWhiteSpaceChar s)))"

definition radix_digit :: "nat \<Rightarrow> char \<Rightarrow> bool" where
  "radix_digit r c = (case hex_value c of None \<Rightarrow> False | Some d \<Rightarrow> d < r)"

definition radix_literal_positive :: "nat \<Rightarrow> string \<Rightarrow> bool" where
  "radix_literal_positive r ds =
     (ds \<noteq> [] \<and> list_all (radix_digit r) ds \<and> list_ex (\<lambda>c. c \<noteq> CHR ''0'') ds)"

definition rounds_above_zero :: "nat \<Rightarrow> int \<Rightarrow> bool" where
  "rounds_above_zero m e =
     (if 0 \<le> e then 0 < m else (10::int) ^ nat (- e) < int m * 2 ^ 1075)"

definition exponent_part :: "string \<Rightarrow> int option" where
  "exponent_part s =
     (if s = [] then Some 0
      else if hd s = CHR ''e'' \<or> hd s = CHR ''E'' then
        (let t = tl s;
             negative = (t \<noteq> [] \<and> hd t = CHR ''-'');
             ds = (if t \<noteq> [] \<and> (hd t = CHR ''-'' \<or> hd t = CHR ''+'') then tl t else t)
         in if ds = [] then None
            else if list_all is_digit ds then
              Some (if negative then - int (number_of_digits ds) else int (number_of_digits ds))
            else None)
      else None)"

definition unsigned_decimal_positive :: "string \<Rightarrow> bool" where
  "unsigned_decimal_positive u =
     (if u = ''Infinity'' then True
      else
        (let ip = takeWhile is_digit u;
             r1 = dropWhile is_digit u;
             dot = (r1 \<noteq> [] \<and> hd r1 = CHR ''.'');
             fp = (if dot then takeWhile is_digit (tl r1) else []);
             r2 = (if dot then dropWhile is_digit (tl r1) else r1)
         in if ip = [] \<and> fp = [] then False
            else (case exponent_part r2 of
                    None \<Rightarrow> False
                  | Some e \<Rightarrow>
                      rounds_above_zero (number_of_digits (ip @ fp)) (e - int (length fp)))))"

definition StringToNumber_positive :: "string \<Rightarrow> bool" where
  "StringToNumber_positive s =
     (let t = trim s in
      if t = [] then False
      else if take 2 t = ''0x'' \<or> take 2 t = ''0X'' then radix_literal_positive 16 (drop 2 t)
      else if take 2 t = ''0o'' \<or> take 2 t = ''0O'' then radix_literal_positive 8 (drop 2 t)
      else if take 2 t = ''0b'' \<or> take 2 t = ''0B'' then radix_literal_positive 2 (drop 2 t)
      else if hd t = CHR ''-'' then False
      else if hd t = CHR ''+'' then unsigned_decimal_positive (tl t)
      else unsigned_decimal_positive t)"

text \<open>
  \<^verbatim>\<open>v > 0\<close>: the operand is converted to a primitive and then to a number. undefined
  and a plain object are NaN, null is 0, true is 1, a string is read as a number, and an
  array goes through its joined string.
\<close>

fun value_greater_than_zero :: "js option \<Rightarrow> error + bool" where
  "value_greater_than_zero None = Inr False"
| "value_greater_than_zero (Some JNull) = Inr False"
| "value_greater_than_zero (Some (JBool b)) = Inr b"
| "value_greater_than_zero (Some (JNum n)) = Inr (0 < integer_of n)"
| "value_greater_than_zero (Some (JStr s)) = Inr (StringToNumber_positive s)"
| "value_greater_than_zero (Some (JArr xs)) =
     (case join_elements xs of
        Inl e \<Rightarrow> Inl e
      | Inr s \<Rightarrow> Inr (StringToNumber_positive s))"
| "value_greater_than_zero (Some (JObj kvs)) =
     (if own_property kvs ''toString'' = None then Inr False else Inl TypeError)"

text \<open>\<^verbatim>\<open>v.length > 0\<close> on what the read of \<^verbatim>\<open>.length\<close> gave.\<close>

fun greater_than_zero :: "length_value \<Rightarrow> error + bool" where
  "greater_than_zero (Count n) = Inr (0 < n)"
| "greater_than_zero (Property v) = value_greater_than_zero v"

section \<open>Query classifier\<close>

text \<open>
  \<^verbatim>\<open>
  export function isLoadAgentStateQuery(body: any): boolean {
    return (
      body &&
      typeof body === 'object' &&
      body.operationName === 'loadAgentState'
    );
  }
  \<close>
  \<^verbatim>\<open>a && b\<close> is \<open>a\<close> itself when \<open>a\<close> is falsy, and \<open>b\<close> otherwise, so the function
  returns its argument when that is falsy, whatever the declared return type says.
\<close>

definition isLoadAgentStateQuery :: "js option \<Rightarrow> error + js option" where
  "isLoadAgentStateQuery body =
     (if \<not> to_boolean body then Inr body
      else if typeof body \<noteq> ''object'' then Inr (Some (JBool False))
      else (case get_prop body ''operationName'' of
              Inl e \<Rightarrow> Inl e
            | Inr v \<Rightarrow> Inr (Some (JBool (v = Some (JStr ''loadAgentState''))))))"

text \<open>
  \<^verbatim>\<open>
  export function extractThreadId(body: any): string | null {
    try {
      return body?.variables?.data?.threadId || null;
    } catch {
      return null;
    }
  }
  \<close>
  The chain of the \<^verbatim>\<open>try\<close> block is \<open>nested_data_field\<close>; the \<^verbatim>\<open>catch\<close> turns every
  exception into null.
\<close>

definition nested_data_field :: "js option \<Rightarrow> string \<Rightarrow> error + js" where
  "nested_data_field body field =
     (case opt_get_prop body ''variables'' of
        Inl e \<Rightarrow> Inl e
      | Inr variables \<Rightarrow>
          (case opt_get_prop variables ''data'' of
             Inl e \<Rightarrow> Inl e
           | Inr data \<Rightarrow>
               (case opt_get_prop data field of
                  Inl e \<Rightarrow> Inl e
                | Inr v \<Rightarrow> Inr (or_else v JNull))))"

definition extractThreadId :: "js option \<Rightarrow> js" where
  "extractThreadId body =
     (case nested_data_field body ''threadId'' of Inl e \<Rightarrow> JNull | Inr v \<Rightarrow> v)"

text \<open>\<^verbatim>\<open>extractAgentName\<close> is the same function on the field \<^verbatim>\<open>agentName\<close>.\<close>

definition extractAgentName :: "js option \<Rightarrow> js" where
  "extractAgentName body =
     (case nested_data_field body ''agentName'' of Inl e \<Rightarrow> JNull | Inr v \<Rightarrow> v)"

text \<open>
  The value at \<^verbatim>\<open>body.variables.data.<field>\<close>, when every level of the path is there:
  \<open>None\<close> when the payload, \<^verbatim>\<open>variables\<close> or \<^verbatim>\<open>data\<close> is not an object or the key is
  missing.
\<close>

fun own_member :: "js option \<Rightarrow> string \<Rightarrow> js option" where
  "own_member (Some (JObj kvs)) k = own_property kvs k"
| "own_member v k = None"

definition path_value :: "js option \<Rightarrow> string \<Rightarrow> js option" where
  "path_value body field =
     own_member (own_member (own_member body ''variables'') ''data'') field"

section \<open>State fetch client\<close>

text \<open>
  \<^verbatim>\<open>
  interface AgentState {
    messages: AGUIMessage[];
    state: Record<string, any>;
  }
  interface LoadStateResponse {
    threadId: string;
    threadExists: boolean;
    messages: string; // JSON stringified
    state: string; // JSON stringified
  }
  \<close>
  The fields of an \<^verbatim>\<open>AgentState\<close> are filled from the \<^verbatim>\<open>any\<close>-typed response body
  without a check, so at run time they hold whatever the agent sent: they are values of
  \<open>js\<close>, and an agent state is well typed when \<^verbatim>\<open>messages\<close> is an array and
  \<^verbatim>\<open>state\<close> an object.
\<close>

record AgentState =
  messages :: js
  state :: js

record LoadStateResponse =
  threadId :: string
  threadExists :: bool
  messages :: string
  state :: string

text \<open>
  The outside world of \<^verbatim>\<open>loadStateFromAgent\<close> is \<^verbatim>\<open>fetch\<close>: a request and the time
  in milliseconds after which the abort signal fires are answered by a rejection (an
  AbortError when the timer wins, a network error) or by a response. The field
  \<open>http_method\<close> is the \<^verbatim>\<open>method\<close> of the request. A response has its
  status, and the outcomes of reading its body as text and as JSON; \<^verbatim>\<open>response.ok\<close>
  is true for the statuses 200 to 299.
\<close>

record Request =
  url :: string
  http_method :: string
  headers :: "(string \<times> string) list"
  body :: string

record Response =
  status :: int
  text_outcome :: "error + string"
  json_outcome :: "error + js"

definition ok :: "Response \<Rightarrow> bool" where
  "ok response = (200 \<le> status response \<and> status response \<le> 299)"

type_synonym fetch = "Request \<Rightarrow> int \<Rightarrow> error + Response"

text \<open>The empty state \<^verbatim>\<open>{ messages: [], state: {} }\<close>.\<close>

definition emptyState :: AgentState where
  "emptyState = \<lparr>AgentState.messages = JArr [], AgentState.state = JObj []\<rparr>"

text \<open>\<^verbatim>\<open>agentUrl.replace(/\/$/, '')\<close> removes one slash at the very end, if there is one.\<close>

definition strip_trailing_slash :: "string \<Rightarrow> string" where
  "strip_trailing_slash s = (if s \<noteq> [] \<and> last s = CHR ''/'' then butlast s else s)"

text \<open>
  \<^verbatim>\<open>
  const loadStateUrl = agentUrl.replace(/\/$/, '') + '/load_state';
  const requestBody = { threadId };
  const response = await fetch(loadStateUrl, {
    method: 'POST',
    headers: { 'Content-Type': 'application/json' },
    body: JSON.stringify(requestBody),
    signal: controller.signal,
  });
  \<close>
\<close>

definition load_state_request :: "string \<Rightarrow> string \<Rightarrow> Request" where
  "load_state_request agentUrl thread_id =
     (let loadStateUrl = strip_trailing_slash agentUrl @ ''/load_state'';
          requestBody = JObj [(''threadId'', JStr thread_id)]
      in \<lparr>url = loadStateUrl, http_method = ''POST'',
          headers = [(''Content-Type'', ''application/json'')],
          body = JSON_stringify requestBody\<rparr>)"

text \<open>
  \<^verbatim>\<open>
  const data = await response.json();
  console.log(`[StateLoader] Received response:`, data);
  console.log(`[StateLoader] Extracted ${data.messages.length} messages`);
  return {
    messages: data.messages || [],
    state: data.state || {},
  };
  \<close>
  The second log line reads \<^verbatim>\<open>data.messages.length\<close> and converts it to a string
  before the return statement is reached; each of the three steps can throw.
\<close>

definition read_state :: "js \<Rightarrow> error + AgentState" where
  "read_state data =
     (case get_prop (Some data) ''messages'' of
        Inl e \<Rightarrow> Inl e
      | Inr data_messages \<Rightarrow>
          (case js_length data_messages of
             Inl e \<Rightarrow> Inl e
           | Inr len \<Rightarrow>
               (case template_ToString len of
                  Inl e \<Rightarrow> Inl e
                | Inr logged \<Rightarrow>
                    (case get_prop (Some data) ''state'' of
                       Inl e \<Rightarrow> Inl e
                     | Inr data_state \<Rightarrow>
                         Inr \<lparr>AgentState.messages = or_else data_messages (JArr []),
                              AgentState.state = or_else data_state (JObj [])\<rparr>))))"

text \<open>
  The \<^verbatim>\<open>try\<close> block of \<^verbatim>\<open>loadStateFromAgent\<close>: its outcome, and the requests it sent.
  \<^verbatim>\<open>
  if (!response.ok) {
    const errorText = await response.text();
    ...
    return { messages: [], state: {} };
  }
  \<close>
\<close>

definition try_loadStateFromAgent ::
  "fetch \<Rightarrow> string \<Rightarrow> string \<Rightarrow> int \<Rightarrow> (error + AgentState) \<times> Request list" where
  "try_loadStateFromAgent fetch agentUrl thread_id timeoutMs =
     (let request = load_state_request agentUrl thread_id
      in ((case fetch request timeoutMs of
             Inl e \<Rightarrow> Inl e
           | Inr response \<Rightarrow>
               if \<not> ok response then
                 (case text_outcome response of
                    Inl e \<Rightarrow> Inl e
                  | Inr errorText \<Rightarrow> Inr emptyState)
               else
                 (case json_outcome response of
                    Inl e \<Rightarrow> Inl e
                  | Inr data \<Rightarrow> read_state data)),
          [request]))"

text \<open>
  \<^verbatim>\<open>
  export async function loadStateFromAgent(
    agentUrl: string, threadId: string, timeoutMs: number = 5000
  ): Promise<AgentState> {
    try { ... } catch (error) {
      ...
      return { messages: [], state: {} };
    }
  }
  \<close>
  The \<^verbatim>\<open>catch\<close> block logs the exception, differently for an AbortError, and returns
  the empty state in both cases. The console output is not part of the model.
\<close>

definition loadStateFromAgent ::
  "fetch \<Rightarrow> string \<Rightarrow> string \<Rightarrow> int option \<Rightarrow> AgentState \<times> Request list" where
  "loadStateFromAgent fetch agentUrl thread_id timeoutMs =
     (case try_loadStateFromAgent fetch agentUrl thread_id
             (case timeoutMs of None \<Rightarrow> 5000 | Some t \<Rightarrow> t) of
        (Inl error, requests) \<Rightarrow> (emptyState, requests)
      | (Inr agentState, requests) \<Rightarrow> (agentState, requests))"

section \<open>Response composer\<close>

text \<open>
  \<^verbatim>\<open>
  export function createLoadStateResponse(
    threadId: string, agentState: AgentState
  ): LoadStateResponse {
    const threadExists = agentState.messages.length > 0;
    return {
      threadId,
      threadExists,
      messages: JSON.stringify(agentState.messages),
      state: JSON.stringify(agentState.state),
    };
  }
  \<close>
\<close>

definition createLoadStateResponse :: "string \<Rightarrow> AgentState \<Rightarrow> error + LoadStateResponse" where
  "createLoadStateResponse thread_id agentState =
     (case js_length (Some (AgentState.messages agentState)) of
        Inl e \<Rightarrow> Inl e
      | Inr len \<Rightarrow>
          (case greater_than_zero len of
             Inl e \<Rightarrow> Inl e
           | Inr thread_exists \<Rightarrow>
               Inr \<lparr>threadId = thread_id,
                    threadExists = thread_exists,
                    messages = JSON_stringify (AgentState.messages agentState),
                    state = JSON_stringify (AgentState.state agentState)\<rparr>))"

text \<open>
  \<^verbatim>\<open>JSON.parse(text).length > 0\<close>, the test a reader of the response makes on its
  \<^verbatim>\<open>messages\<close> field.
\<close>

definition parsed_length_positive :: "string \<Rightarrow> error + bool" where
  "parsed_length_positive text_value =
     (case JSON_parse text_value of
        None \<Rightarrow> Inl SyntaxError
      | Some v \<Rightarrow>
          (case js_length (Some v) of
             Inl e \<Rightarrow> Inl e
           | Inr len \<Rightarrow> greater_than_zero len))"

section \<open>Sequential state-loads\<close>



section \<open>Auxiliary notions for the proofs\<close>

text \<open>The depth of descent that \<open>parse_value\<close> needs to read back a written value.\<close>

fun fuel_value :: "js \<Rightarrow> nat"
  and fuel_elements :: "js list \<Rightarrow> nat"
  and fuel_members :: "(string \<times> js) list \<Rightarrow> nat" where
  "fuel_value JNull = 1"
| "fuel_value (JBool b) = 1"
| "fuel_value (JNum n) = 1"
| "fuel_value (JStr s) = 1"
| "fuel_value (JArr xs) = Suc (fuel_elements xs)"
| "fuel_value (JObj kvs) = Suc (fuel_members kvs)"
| "fuel_elements [] = 0"
| "fuel_elements (x # xs) = Suc (max (fuel_value x) (fuel_elements xs))"
| "fuel_members [] = 0"
| "fuel_members ((k, v) # kvs) = Suc (max (fuel_value v) (fuel_members kvs))"

text \<open>What may follow a value in a JSON text, and what may not follow an integer literal.\<close>

definition value_end :: "string \<Rightarrow> bool" where
  "value_end rest = (rest = [] \<or> hd rest \<in> {CHR '','', CHR '']'', CHR ''}''})"

definition number_end :: "string \<Rightarrow> bool" where
  "number_end rest =
     (rest = [] \<or> \<not> is_digit (hd rest) \<and> hd rest \<notin> {CHR ''.'', CHR ''e'', CHR ''E''})"

definition value_start :: "char \<Rightarrow> bool" where
  "value_start c = (\<not> is_ws c \<and> c \<notin> {CHR '','', CHR '']'', CHR ''}'', CHR '':''})"

section \<open>\<^verbatim>\<open>JSON.parse\<close> reads back what \<^verbatim>\<open>JSON.stringify\<close> writes\<close>

declare digits_of.simps [simp del]
declare parse_value.simps(2) [simp del]
declare parse_elements.simps(2) [simp del]
declare parse_members.simps(2) [simp del]

lemmas parse_step = parse_value.simps(2) parse_elements.simps(2) parse_members.simps(2)

subsection \<open>Strings\<close>

lemma hex_value_hex_digit: "d < 16 \<Longrightarrow> hex_value (hex_digit d) = Some d"
  by (auto simp add: hex_value_def hex_digit_def Let_def)

lemma char_eq_code: "(c = c') = ((of_char c :: nat) = of_char c')"
  by auto

lemma hex4_escape:
  "n < 32 \<Longrightarrow>
   hex4 (CHR ''0'') (CHR ''0'') (hex_digit (n div 16)) (hex_digit (n mod 16)) = Some n"
  by (simp add: hex4_def hex_value_hex_digit) (simp add: hex_value_def)

lemma parse_chars_quote_char:
  "parse_chars (quote_char c @ s) =
     (case parse_chars s of None \<Rightarrow> None | Some (str, rest) \<Rightarrow> Some (c # str, rest))"
proof -
  define n :: nat where "n = of_char c"
  have c: "c = char_of n" by (simp add: n_def)
  have n: "n < 256" by (simp add: n_def)
  consider "n = 8" | "n = 9" | "n = 10" | "n = 12" | "n = 13" | "n = 34" | "n = 92"
    | "n < 32" "n \<notin> {8, 9, 10, 12, 13}" | "32 \<le> n" "n \<noteq> 34" "n \<noteq> 92"
    by fastforce
  then show ?thesis
    using n
    by cases
      (auto simp add: quote_char_def Let_def c unescape_def hex4_escape char_eq_code
        split: option.splits)
qed

lemma parse_chars_concat:
  "parse_chars (concat (map quote_char s) @ CHR 0x22 # rest) = Some (s, rest)"
  by (induction s) (simp_all add: parse_chars_quote_char)

subsection \<open>Integers\<close>

lemma is_digit_digit_char: "d < 10 \<Longrightarrow> is_digit (digit_char d)"
  by (simp add: is_digit_def digit_char_def)

lemma digit_value_digit_char: "d < 10 \<Longrightarrow> digit_value (digit_char d) = d"
  by (simp add: digit_value_def digit_char_def)

lemma digits_of_all_digits: "\<forall>c \<in> set (digits_of n). is_digit c"
  by (induction n rule: digits_of.induct)
    (subst digits_of.simps, auto simp add: is_digit_digit_char)

lemma digits_of_nonempty: "digits_of n \<noteq> []"
  by (subst digits_of.simps) simp

lemma number_of_digits_snoc:
  "number_of_digits (ds @ [c]) = 10 * number_of_digits ds + digit_value c"
  by (simp add: number_of_digits_def)

lemma number_of_digits_of: "number_of_digits (digits_of n) = n"
proof (induction n rule: digits_of.induct)
  case (1 n)
  show ?case
  proof (cases "n < 10")
    case True
    then show ?thesis
      by (subst digits_of.simps) (simp add: number_of_digits_def digit_value_digit_char)
  next
    case False
    with 1 show ?thesis
      by (subst digits_of.simps) (simp add: number_of_digits_snoc digit_value_digit_char)
  qed
qed

lemma hd_digits_of: "hd (digits_of n) = CHR ''0'' \<Longrightarrow> n = 0"
proof (induction n rule: digits_of.induct)
  case (1 n)
  show ?case
  proof (cases "n < 10")
    case True
    with 1(2) show ?thesis
      by (subst (asm) digits_of.simps) (auto simp add: digit_char_def char_eq_code)
  next
    case False
    with 1(2) have "hd (digits_of (n div 10)) = CHR ''0''"
      by (subst (asm) digits_of.simps) (simp add: digits_of_nonempty)
    with 1(1) False have "n div 10 = 0" by simp
    with False show ?thesis by simp
  qed
qed

lemma length_digits_of_0: "length (digits_of 0) = 1"
  by (subst digits_of.simps) simp

lemma leading_zero_single:
  "hd (digits_of n) = CHR ''0'' \<Longrightarrow> length (digits_of n) = 1"
  using hd_digits_of [of n] by (auto simp add: length_digits_of_0)

lemma digits_of_start: "\<exists>c cs. digits_of m = c # cs \<and> is_digit c"
  using digits_of_all_digits [of m] digits_of_nonempty [of m]
  by (cases "digits_of m") auto

lemma digits_of_not_minus: "hd (digits_of n) \<noteq> CHR ''-''"
  using digits_of_start [of n] by (auto simp add: is_digit_def)

lemma takeWhile_digits:
  "number_end rest \<Longrightarrow> takeWhile is_digit (digits_of n @ rest) = digits_of n"
  using digits_of_all_digits [of n]
  by (cases rest) (auto simp add: number_end_def takeWhile_append)

lemma dropWhile_digits:
  "number_end rest \<Longrightarrow> dropWhile is_digit (digits_of n @ rest) = rest"
  using digits_of_all_digits [of n]
  by (cases rest) (auto simp add: number_end_def dropWhile_append)

lemma parse_number_digits:
  assumes "number_end rest"
  shows "parse_number (Number_toString n @ rest) = Some (integer_of n, rest)"
proof -
  define i where "i = integer_of n"
  show ?thesis
  proof (cases "i < 0")
    case True
    have "parse_number (CHR ''-'' # digits_of (nat (- i)) @ rest) = Some (i, rest)"
      using assms True leading_zero_single [of "nat (- i)"]
      by (auto simp add: parse_number_def Let_def takeWhile_digits dropWhile_digits
          digits_of_nonempty number_of_digits_of number_end_def)
    with True show ?thesis by (simp add: Number_toString_def i_def)
  next
    case False
    have hd: "hd (digits_of (nat i) @ rest) \<noteq> CHR ''-''"
      using digits_of_not_minus [of "nat i"] by (simp add: digits_of_nonempty)
    have "parse_number (digits_of (nat i) @ rest) = Some (i, rest)"
      using assms False hd leading_zero_single [of "nat i"]
      by (auto simp add: parse_number_def Let_def takeWhile_digits dropWhile_digits
          digits_of_nonempty number_of_digits_of number_end_def)
    with False show ?thesis by (simp add: Number_toString_def i_def)
  qed
qed

lemma Number_toString_start:
  "\<exists>c cs. Number_toString n = c # cs \<and> (c = CHR ''-'' \<or> is_digit c)"
proof (cases "integer_of n < 0")
  case True
  then show ?thesis by (simp add: Number_toString_def)
next
  case False
  then show ?thesis
    using digits_of_start [of "nat (integer_of n)"] by (auto simp add: Number_toString_def)
qed

lemma length_Number_toString: "1 \<le> length (Number_toString n)"
  using Number_toString_start [of n] by auto

subsection \<open>Values\<close>

lemma skip_ws_punct [simp]:
  "skip_ws (CHR '','' # s) = CHR '','' # s"
  "skip_ws (CHR '']'' # s) = CHR '']'' # s"
  "skip_ws (CHR ''}'' # s) = CHR ''}'' # s"
  "skip_ws (CHR '':'' # s) = CHR '':'' # s"
  "skip_ws (CHR 0x22 # s) = CHR 0x22 # s"
  by (simp_all add: skip_ws_def is_ws_def)

lemma value_end_number_end: "value_end rest \<Longrightarrow> number_end rest"
  by (auto simp add: value_end_def number_end_def is_digit_def)

lemma stringify_start:
  "\<exists>c cs. JSON_stringify v = c # cs \<and> value_start c"
proof (cases v)
  case (JNum n)
  then show ?thesis
    using Number_toString_start [of n]
    by (auto simp add: value_start_def is_ws_def is_digit_def)
qed (auto simp add: value_start_def is_ws_def QuoteJSONString_def)

lemma stringify_elements_start:
  "xs \<noteq> [] \<Longrightarrow> \<exists>c cs. stringify_elements xs = c # cs \<and> value_start c"
proof (cases xs)
  case (Cons x ys)
  then show ?thesis using stringify_start [of x] by (cases ys) auto
qed simp

lemma stringify_members_start:
  "kvs \<noteq> [] \<Longrightarrow> \<exists>cs. stringify_members kvs = CHR 0x22 # cs"
proof (cases kvs)
  case (Cons kv ys)
  then show ?thesis by (cases kv; cases ys) (auto simp add: QuoteJSONString_def)
qed simp

lemma number_start_facts:
  assumes "c = CHR ''-'' \<or> is_digit c"
  shows "\<not> is_ws c" "c \<noteq> CHR 0x22" "c \<noteq> CHR ''[''" "c \<noteq> CHR ''{''"
    "c \<noteq> CHR ''n''" "c \<noteq> CHR ''t''" "c \<noteq> CHR ''f''"
  using assms by (auto simp add: is_digit_def is_ws_def)

lemma parse_value_dispatch_number:
  assumes "c = CHR ''-'' \<or> is_digit c"
  shows "parse_value (Suc n) (c # s) =
    (case parse_number (c # s) of
       None \<Rightarrow> None
     | Some (i, r) \<Rightarrow> if is_safe_integer i then Some (JNum (safe_integer_of i), r) else None)"
  using number_start_facts [OF assms] by (simp add: parse_step skip_ws_def)

lemma parse_value_number:
  assumes "value_end rest"
  shows "parse_value (Suc n) (Number_toString i @ rest) = Some (JNum i, rest)"
proof -
  obtain c cs where s: "Number_toString i = c # cs" and c: "c = CHR ''-'' \<or> is_digit c"
    using Number_toString_start by blast
  have "parse_number (c # cs @ rest) = Some (integer_of i, rest)"
    using parse_number_digits [OF value_end_number_end [OF assms], of i] s by simp
  moreover have "is_safe_integer (integer_of i)"
    using integer_of [of i] by simp
  ultimately show ?thesis
    by (simp add: s parse_value_dispatch_number [OF c] integer_of_inverse)
qed

lemma parse_value_string:
  "parse_value (Suc n) (QuoteJSONString s @ rest) = Some (JStr s, rest)"
  by (simp add: parse_step QuoteJSONString_def parse_chars_concat)

text \<open>
  With enough depth, each of the three readers consumes exactly what the matching
  writer produced and returns the value written.
\<close>

lemma parse_roundtrip:
  "\<And>n rest. fuel_value v \<le> n \<Longrightarrow> value_end rest \<Longrightarrow>
     parse_value n (JSON_stringify v @ rest) = Some (v, rest)"
  "\<And>n rest. xs \<noteq> [] \<Longrightarrow> fuel_elements xs \<le> n \<Longrightarrow>
     parse_elements n (stringify_elements xs @ CHR '']'' # rest) = Some (xs, rest)"
  "\<And>n rest. kvs \<noteq> [] \<Longrightarrow> fuel_members kvs \<le> n \<Longrightarrow>
     parse_members n (stringify_members kvs @ CHR ''}'' # rest) = Some (kvs, rest)"
proof (induction v and xs and kvs rule: JSON_stringify_stringify_elements_stringify_members.induct)
  case 1
  then obtain m where "n = Suc m" by (cases n) auto
  then show ?case by (simp add: parse_step skip_ws_def is_ws_def)
next
  case (2 b)
  then obtain m where "n = Suc m" by (cases n) auto
  then show ?case by (simp add: parse_step skip_ws_def is_ws_def)
next
  case (3 i)
  then obtain m where "n = Suc m" by (cases n) auto
  with 3 show ?case by (simp add: parse_value_number)
next
  case (4 s)
  then obtain m where "n = Suc m" by (cases n) auto
  then show ?case by (simp add: parse_value_string)
next
  case (5 xs)
  from 5(2) obtain m where n: "n = Suc m" and m: "fuel_elements xs \<le> m"
    by (cases n) auto
  show ?case
  proof (cases "xs = []")
    case True
    with n show ?thesis by (simp add: parse_step skip_ws_def is_ws_def)
  next
    case False
    from stringify_elements_start [OF False] obtain c cs
      where s: "stringify_elements xs = c # cs" and c: "value_start c" by blast
    have "parse_elements m (stringify_elements xs @ CHR '']'' # rest) = Some (xs, rest)"
      using 5(1) False m by simp
    with s c n show ?thesis
      by (simp add: parse_step skip_ws_def is_ws_def value_start_def)
  qed
next
  case (6 kvs)
  from 6(2) obtain m where n: "n = Suc m" and m: "fuel_members kvs \<le> m"
    by (cases n) auto
  show ?case
  proof (cases "kvs = []")
    case True
    with n show ?thesis by (simp add: parse_step skip_ws_def is_ws_def)
  next
    case False
    from stringify_members_start [OF False] obtain cs
      where s: "stringify_members kvs = CHR 0x22 # cs" by blast
    have "parse_members m (stringify_members kvs @ CHR ''}'' # rest) = Some (kvs, rest)"
      using 6(1) False m by simp
    with s n show ?thesis
      by (simp add: parse_step skip_ws_def is_ws_def)
  qed
next
  case 7
  then show ?case by simp
next
  case (8 x)
  from 8(3) obtain m where n: "n = Suc m" and m: "fuel_value x \<le> m"
    by (cases n) auto
  have "parse_value m (JSON_stringify x @ CHR '']'' # rest) = Some (x, CHR '']'' # rest)"
    using 8(1) [OF m] by (simp add: value_end_def)
  with n show ?case by (simp add: parse_step)
next
  case (9 x y ys)
  from 9(4) obtain m where n: "n = Suc m"
    and m: "fuel_value x \<le> m" "fuel_elements (y # ys) \<le> m"
    by (cases n) auto
  have "parse_value m
          (JSON_stringify x @ CHR '','' # stringify_elements (y # ys) @ CHR '']'' # rest)
        = Some (x, CHR '','' # stringify_elements (y # ys) @ CHR '']'' # rest)"
    using 9(1) [OF m(1)] by (simp add: value_end_def)
  moreover have
    "parse_elements m (stringify_elements (y # ys) @ CHR '']'' # rest) = Some (y # ys, rest)"
    using 9(2) [OF _ m(2)] by simp
  ultimately show ?case using n by (simp add: parse_step)
next
  case 10
  then show ?case by simp
next
  case (11 k v)
  from 11(3) obtain m where n: "n = Suc m" and m: "fuel_value v \<le> m"
    by (cases n) auto
  have "parse_value m (JSON_stringify v @ CHR ''}'' # rest) = Some (v, CHR ''}'' # rest)"
    using 11(1) [OF m] by (simp add: value_end_def)
  with n show ?case by (simp add: parse_step QuoteJSONString_def parse_chars_concat)
next
  case (12 k v kv kvs)
  from 12(4) obtain m where n: "n = Suc m"
    and m: "fuel_value v \<le> m" "fuel_members (kv # kvs) \<le> m"
    by (cases n) auto
  have "parse_value m
          (JSON_stringify v @ CHR '','' # stringify_members (kv # kvs) @ CHR ''}'' # rest)
        = Some (v, CHR '','' # stringify_members (kv # kvs) @ CHR ''}'' # rest)"
    using 12(1) [OF m(1)] by (simp add: value_end_def)
  moreover have
    "parse_members m (stringify_members (kv # kvs) @ CHR ''}'' # rest) = Some (kv # kvs, rest)"
    using 12(2) [OF _ m(2)] by simp
  ultimately show ?case
    using n by (simp add: parse_step QuoteJSONString_def parse_chars_concat)
qed

lemma fuel_bound:
  "fuel_value v \<le> length (JSON_stringify v)"
  "fuel_elements xs \<le> Suc (length (stringify_elements xs))"
  "fuel_members kvs \<le> Suc (length (stringify_members kvs))"
proof (induction v and xs and kvs rule: JSON_stringify_stringify_elements_stringify_members.induct)
  case (3 n)
  then show ?case using length_Number_toString [of n] by simp
qed (auto simp add: QuoteJSONString_def)

lemma JSON_parse_stringify: "JSON_parse (JSON_stringify v) = Some v"
proof -
  have "parse_value (length (JSON_stringify v)) (JSON_stringify v @ []) = Some (v, [])"
    by (rule parse_roundtrip(1)) (simp_all add: fuel_bound value_end_def)
  then show ?thesis by (simp add: JSON_parse_def skip_ws_def)
qed

section \<open>Properties of the classifier\<close>

lemma opt_get_prop_member: "opt_get_prop v k = Inr (own_member v k)"
  by (cases "(v, k)" rule: opt_get_prop.cases) (auto elim: get_prop.elims)

lemma nested_data_field_path:
  "nested_data_field payload field = Inr (or_else (path_value payload field) JNull)"
  by (simp add: nested_data_field_def path_value_def opt_get_prop_member)

lemma isLoadAgentStateQuery_never_throws: "\<exists>r. isLoadAgentStateQuery payload = Inr r"
proof (cases payload)
  case None
  then show ?thesis by (simp add: isLoadAgentStateQuery_def)
next
  case (Some v)
  then show ?thesis by (cases v) (simp_all add: isLoadAgentStateQuery_def)
qed

lemma isLoadAgentStateQuery_true_iff:
  "isLoadAgentStateQuery payload = Inr (Some (JBool True)) \<longleftrightarrow>
     (\<exists>kvs. payload = Some (JObj kvs) \<and>
            own_property kvs ''operationName'' = Some (JStr ''loadAgentState''))"
proof (cases payload)
  case None
  then show ?thesis by (simp add: isLoadAgentStateQuery_def)
next
  case (Some v)
  then show ?thesis by (cases v) (auto simp add: isLoadAgentStateQuery_def)
qed

lemma isLoadAgentStateQuery_falsy_otherwise:
  assumes "isLoadAgentStateQuery payload = Inr r" and "r \<noteq> Some (JBool True)"
  shows "\<not> to_boolean r"
proof (cases payload)
  case None
  with assms show ?thesis by (simp add: isLoadAgentStateQuery_def)
next
  case (Some v)
  with assms show ?thesis
    by (cases v) (auto simp add: isLoadAgentStateQuery_def split: if_splits)
qed

lemma isLoadAgentStateQuery_truthy_payload:
  assumes "to_boolean payload"
  shows "isLoadAgentStateQuery payload = Inr (Some (JBool True)) \<or>
         isLoadAgentStateQuery payload = Inr (Some (JBool False))"
proof (cases payload)
  case None
  with assms show ?thesis by simp
next
  case (Some v)
  with assms show ?thesis by (cases v) (auto simp add: isLoadAgentStateQuery_def)
qed

text \<open>
  Claim C4. The classifier is to return true exactly for a non-null object whose
  \<^verbatim>\<open>operationName\<close> is the string \<^verbatim>\<open>loadAgentState\<close>, and false for every other
  payload, null and undefined included. The first half holds
  (\<open>isLoadAgentStateQuery_true_iff\<close>), and every other result is falsy
  (\<open>isLoadAgentStateQuery_falsy_otherwise\<close>), but on the payloads null and undefined
  the function declared \<^verbatim>\<open>boolean\<close> returns null and undefined, not false:
  \<^verbatim>\<open>body && ...\<close> yields \<open>body\<close>.
\<close>

theorem isLoadAgentStateQuery_null_payload:
  "isLoadAgentStateQuery (Some JNull) = Inr (Some JNull) \<and>
   isLoadAgentStateQuery (Some JNull) \<noteq> Inr (Some (JBool False)) \<and>
   isLoadAgentStateQuery None = Inr None \<and>
   isLoadAgentStateQuery None \<noteq> Inr (Some (JBool False))"
  by (simp add: isLoadAgentStateQuery_def)

text \<open>
  Claim C5, as stated: the extractors never throw and return the value found at
  \<^verbatim>\<open>variables.data.threadId\<close> (\<^verbatim>\<open>agentName\<close>) when it is present. An empty-string
  \<^verbatim>\<open>threadId\<close> is present, and the extractor returns null instead of it.
\<close>

theorem extractThreadId_present_empty_string:
  "path_value (Some (JObj [(''variables'', JObj [(''data'',
       JObj [(''threadId'', JStr '''')])])])) ''threadId'' = Some (JStr '''') \<and>
   extractThreadId (Some (JObj [(''variables'', JObj [(''data'',
       JObj [(''threadId'', JStr '''')])])])) \<noteq> JStr ''''"
  by (simp add: extractThreadId_def nested_data_field_path path_value_def
      own_property_def or_else_def)

text \<open>
  Claim C5, amended. For every payload (undefined, null, a non-object, an object missing
  any level of \<^verbatim>\<open>variables.data\<close>) the \<^verbatim>\<open>try\<close> block raises nothing, and each extractor
  returns the value at \<^verbatim>\<open>variables.data.threadId\<close> (\<^verbatim>\<open>agentName\<close>) when that value is
  present and truthy, and null in every other case.
\<close>

theorem extract_value_or_null:
  "(\<exists>v. nested_data_field payload ''threadId'' = Inr v) \<and>
   (\<exists>v. nested_data_field payload ''agentName'' = Inr v) \<and>
   extractThreadId payload =
     (case path_value payload ''threadId'' of
        None \<Rightarrow> JNull
      | Some v \<Rightarrow> if truthy v then v else JNull) \<and>
   extractAgentName payload =
     (case path_value payload ''agentName'' of
        None \<Rightarrow> JNull
      | Some v \<Rightarrow> if truthy v then v else JNull)"
  by (simp add: extractThreadId_def extractAgentName_def nested_data_field_path
      or_else_def)

text \<open>
  Claim C9. A present but falsy value at \<^verbatim>\<open>variables.data.threadId\<close> (\<^verbatim>\<open>agentName\<close>),
  the empty string in particular, comes out as null, which is also what a payload
  without the path gives: the two cannot be told apart from the extractor's result.
\<close>

theorem extract_falsy_as_missing:
  assumes "path_value present field = Some v" and "\<not> truthy v"
    and "path_value missing field = None"
  shows "(field = ''threadId'' \<longrightarrow>
            extractThreadId present = JNull \<and>
            extractThreadId present = extractThreadId missing) \<and>
         (field = ''agentName'' \<longrightarrow>
            extractAgentName present = JNull \<and>
            extractAgentName present = extractAgentName missing)"
  using assms
  by (auto simp add: extractThreadId_def extractAgentName_def nested_data_field_path
      or_else_def)

theorem extract_falsy_as_missing_witness:
  "extractThreadId (Some (JObj [(''variables'', JObj [(''data'',
       JObj [(''threadId'', JStr ''''), (''agentName'', JStr ''a'')])])])) = JNull \<and>
   extractThreadId (Some (JObj [(''variables'', JObj [(''data'',
       JObj [(''threadId'', JStr ''''), (''agentName'', JStr ''a'')])])])) =
   extractThreadId (Some (JObj [(''variables'', JObj [])]))"
proof -
  let ?present = "Some (JObj [(''variables'', JObj [(''data'',
       JObj [(''threadId'', JStr ''''), (''agentName'', JStr ''a'')])])])"
  let ?missing = "Some (JObj [(''variables'', JObj [])])"
  have p: "path_value ?present ''threadId'' = Some (JStr '''')"
    by (simp add: path_value_def own_property_def)
  have f: "\<not> truthy (JStr '''')" by simp
  have m: "path_value ?missing ''threadId'' = None"
    by (simp add: path_value_def own_property_def)
  from extract_falsy_as_missing [OF p f m] show ?thesis by auto
qed

section \<open>Properties of the state fetch client\<close>

lemma try_requests:
  "snd (try_loadStateFromAgent fetch agentUrl tid t) = [load_state_request agentUrl tid]"
  by (simp add: try_loadStateFromAgent_def Let_def)

lemma loadStateFromAgent_requests:
  "snd (loadStateFromAgent fetch agentUrl tid timeoutMs) = [load_state_request agentUrl tid]"
  using try_requests [of fetch agentUrl tid "case timeoutMs of None \<Rightarrow> 5000 | Some t \<Rightarrow> t"]
  by (auto simp add: loadStateFromAgent_def split: prod.splits sum.splits)

lemma loadStateFromAgent_state:
  "fst (loadStateFromAgent fetch agentUrl tid timeoutMs) =
     (case fst (try_loadStateFromAgent fetch agentUrl tid
                  (case timeoutMs of None \<Rightarrow> 5000 | Some t \<Rightarrow> t)) of
        Inl e \<Rightarrow> emptyState
      | Inr s \<Rightarrow> s)"
  by (simp add: loadStateFromAgent_def split: prod.splits sum.splits)

lemma try_outcome:
  "fst (try_loadStateFromAgent fetch agentUrl tid t) =
     (case fetch (load_state_request agentUrl tid) t of
        Inl e \<Rightarrow> Inl e
      | Inr response \<Rightarrow>
          if \<not> ok response then
            (case text_outcome response of
               Inl e \<Rightarrow> Inl e
             | Inr errorText \<Rightarrow> Inr emptyState)
          else
            (case json_outcome response of
               Inl e \<Rightarrow> Inl e
             | Inr data \<Rightarrow> read_state data))"
  by (simp add: try_loadStateFromAgent_def Let_def)

lemma createLoadStateResponse_emptyState:
  "createLoadStateResponse tid emptyState =
     Inr \<lparr>threadId = tid, threadExists = False, messages = ''[]'', state = ''{}''\<rparr>"
  by (simp add: createLoadStateResponse_def emptyState_def)

text \<open>
  Claim C2. When the outbound call is rejected (by the timeout's abort or by a transport
  error), or answered with a status outside 200 to 299, or when reading the body as JSON
  throws, \<^verbatim>\<open>loadStateFromAgent\<close> returns the empty state: every exception of the
  \<^verbatim>\<open>try\<close> block ends in the \<^verbatim>\<open>catch\<close>, none reaches the caller. Composed with
  \<^verbatim>\<open>createLoadStateResponse\<close> the empty state gives the thread identifier with
  \<^verbatim>\<open>threadExists: false\<close>, \<^verbatim>\<open>messages: "[]"\<close> and \<^verbatim>\<open>state: "{}"\<close>.
\<close>

theorem failed_load_gives_empty_state:
  assumes "fetch (load_state_request agentUrl tid)
             (case timeoutMs of None \<Rightarrow> 5000 | Some t \<Rightarrow> t) = outcome"
    and "(\<exists>e. outcome = Inl e) \<or>
         (\<exists>response. outcome = Inr response \<and>
            (\<not> ok response \<or> (\<exists>e. json_outcome response = Inl e)))"
  shows "fst (loadStateFromAgent fetch agentUrl tid timeoutMs) = emptyState \<and>
         createLoadStateResponse tid (fst (loadStateFromAgent fetch agentUrl tid timeoutMs)) =
           Inr \<lparr>threadId = tid, threadExists = False, messages = ''[]'', state = ''{}''\<rparr>"
proof -
  have "fst (loadStateFromAgent fetch agentUrl tid timeoutMs) = emptyState"
    using assms
    by (auto simp add: loadStateFromAgent_state try_outcome split: sum.splits)
  then show ?thesis by (simp add: createLoadStateResponse_emptyState)
qed

theorem failed_load_gives_empty_state_witness:
  "fst (loadStateFromAgent (\<lambda>request t. Inl AbortError) ''http://localhost:8000'' ''t1'' None)
     = emptyState \<and>
   createLoadStateResponse ''t1''
     (fst (loadStateFromAgent (\<lambda>request t. Inl AbortError)
             ''http://localhost:8000'' ''t1'' None)) =
     Inr \<lparr>threadId = ''t1'', threadExists = False, messages = ''[]'', state = ''{}''\<rparr>"
  using failed_load_gives_empty_state
    [of "\<lambda>request t. Inl AbortError" "''http://localhost:8000''" "''t1''" None
        "Inl AbortError"]
  by (simp add: createLoadStateResponse_emptyState)

text \<open>
  Claim C7, as stated: the one request goes to the agent base URL with
  \<^verbatim>\<open>/load_state\<close> appended. For a base URL that ends in a slash the code removes that
  slash first, so the request goes to \<^verbatim>\<open>http://a/load_state\<close> and not to
  \<^verbatim>\<open>http://a//load_state\<close>.
\<close>

theorem request_url_trailing_slash:
  "map url (snd (loadStateFromAgent (\<lambda>request t. Inl AbortError) ''http://a/'' ''t1'' None))
     = [''http://a/load_state''] \<and>
   map url (snd (loadStateFromAgent (\<lambda>request t. Inl AbortError) ''http://a/'' ''t1'' None))
     \<noteq> [''http://a/'' @ ''/load_state'']"
  by (simp add: loadStateFromAgent_requests load_state_request_def strip_trailing_slash_def)

text \<open>
  Claim C7, amended. Whatever \<^verbatim>\<open>fetch\<close> answers, an invocation of
  \<^verbatim>\<open>loadStateFromAgent\<close> sends exactly one request and never a second one: a POST to
  the agent base URL without one trailing slash, if it had one, followed by
  \<^verbatim>\<open>/load_state\<close>, with the content type of JSON and the body
  \<^verbatim>\<open>{"threadId":<the quoted thread identifier>}\<close>.
\<close>

theorem exactly_one_post_request:
  "snd (loadStateFromAgent fetch agentUrl tid timeoutMs) =
     [\<lparr>url = strip_trailing_slash agentUrl @ ''/load_state'', http_method = ''POST'',
       headers = [(''Content-Type'', ''application/json'')],
       body = ''{'' @ QuoteJSONString ''threadId'' @ '':'' @ QuoteJSONString tid @ ''}''\<rparr>]"
  by (simp add: loadStateFromAgent_requests load_state_request_def)

lemma request_url_without_trailing_slash:
  "agentUrl = [] \<or> last agentUrl \<noteq> CHR ''/'' \<Longrightarrow>
   map url (snd (loadStateFromAgent fetch agentUrl tid timeoutMs)) =
     [agentUrl @ ''/load_state'']"
  by (auto simp add: loadStateFromAgent_requests load_state_request_def
      strip_trailing_slash_def)

lemma read_state_no_messages:
  assumes "get_prop (Some data) ''messages'' = Inr m" and "m = None \<or> m = Some JNull"
  shows "read_state data = Inl TypeError"
  using assms by (auto simp add: read_state_def)

text \<open>
  Claim C10. When the call succeeds with a status from 200 to 299 and the parsed body
  has no \<^verbatim>\<open>messages\<close> (the read gives undefined or null), the \<^verbatim>\<open>try\<close> block ends in
  the TypeError of \<^verbatim>\<open>data.messages.length\<close>, before the return statement with its two
  fallbacks, and \<^verbatim>\<open>loadStateFromAgent\<close> returns the empty state, whatever
  \<^verbatim>\<open>data.state\<close> holds.
\<close>

theorem missing_messages_gives_empty_state:
  assumes "fetch (load_state_request agentUrl tid)
             (case timeoutMs of None \<Rightarrow> 5000 | Some t \<Rightarrow> t) = Inr response"
    and "ok response"
    and "json_outcome response = Inr data"
    and "get_prop (Some data) ''messages'' = Inr m"
    and "m = None \<or> m = Some JNull"
  shows "fst (try_loadStateFromAgent fetch agentUrl tid
                (case timeoutMs of None \<Rightarrow> 5000 | Some t \<Rightarrow> t)) = Inl TypeError \<and>
         fst (loadStateFromAgent fetch agentUrl tid timeoutMs) = emptyState"
  using assms read_state_no_messages [of data m]
  by (simp add: loadStateFromAgent_state try_outcome)

theorem missing_messages_gives_empty_state_witness:
  "ok \<lparr>status = 200, text_outcome = Inr [],
       json_outcome = Inr (JObj [(''state'', JObj [(''step'', JNum (safe_integer_of 3))])])\<rparr> \<and>
   get_prop (Some (JObj [(''state'', JObj [(''step'', JNum (safe_integer_of 3))])])) ''messages'' = Inr None \<and>
   get_prop (Some (JObj [(''state'', JObj [(''step'', JNum (safe_integer_of 3))])])) ''state''
     = Inr (Some (JObj [(''step'', JNum (safe_integer_of 3))])) \<and>
   fst (loadStateFromAgent
          (\<lambda>request t. Inr \<lparr>status = 200, text_outcome = Inr [],
             json_outcome = Inr (JObj [(''state'', JObj [(''step'', JNum (safe_integer_of 3))])])\<rparr>)
          ''http://localhost:8000'' ''t1'' None) = emptyState"
proof -
  let ?data = "JObj [(''state'', JObj [(''step'', JNum (safe_integer_of 3))])]"
  let ?response = "\<lparr>status = 200, text_outcome = Inr [], json_outcome = Inr ?data\<rparr>"
  let ?fetch = "\<lambda>(request :: Request) (t :: int). (Inr ?response :: error + Response)"
  have a: "?fetch (load_state_request ''http://localhost:8000'' ''t1'')
             (case None of None \<Rightarrow> 5000 | Some t \<Rightarrow> t) = Inr ?response" by simp
  have b: "ok ?response" by (simp add: ok_def)
  have c: "json_outcome ?response = Inr ?data" by simp
  have d: "get_prop (Some ?data) ''messages'' = Inr None" by (simp add: own_property_def)
  have e: "(None :: js option) = None \<or> None = Some JNull" by simp
  have f: "get_prop (Some ?data) ''state'' = Inr (Some (JObj [(''step'', JNum (safe_integer_of 3))]))"
    by (simp add: own_property_def)
  from missing_messages_gives_empty_state [OF a b c d e] b d f show ?thesis by simp
qed

section \<open>Properties of the response composer\<close>

lemma createLoadStateResponse_array:
  "createLoadStateResponse tid \<lparr>AgentState.messages = JArr xs, AgentState.state = st\<rparr> =
     Inr \<lparr>threadId = tid,
          threadExists = (xs \<noteq> []),
          messages = JSON_stringify (JArr xs),
          state = JSON_stringify st\<rparr>"
  by (simp add: createLoadStateResponse_def)

lemma parsed_length_positive_array:
  "parsed_length_positive (JSON_stringify (JArr xs)) = Inr (xs \<noteq> [])"
  by (simp only: parsed_length_positive_def JSON_parse_stringify) simp

text \<open>
  For every agent state of the value model, array or not, a response that is produced
  carries a \<^verbatim>\<open>messages\<close> text whose parsed \<^verbatim>\<open>.length > 0\<close> is the
  \<^verbatim>\<open>threadExists\<close> flag.
\<close>

lemma threadExists_matches_parsed_length:
  assumes "createLoadStateResponse tid agentState = Inr r"
  shows "parsed_length_positive (LoadStateResponse.messages r) = Inr (threadExists r)"
  using assms
  by (auto simp add: createLoadStateResponse_def parsed_length_positive_def
      JSON_parse_stringify split: sum.splits)

text \<open>
  Claim C1. For an agent state whose \<^verbatim>\<open>messages\<close> is an array,
  \<^verbatim>\<open>createLoadStateResponse\<close> sets \<^verbatim>\<open>threadExists\<close> to true exactly when the array
  is non-empty, and the flag equals \<^verbatim>\<open>JSON.parse(messages).length > 0\<close> on the
  \<^verbatim>\<open>messages\<close> text of the response.
\<close>

theorem threadExists_iff_messages_nonempty:
  "\<exists>r. createLoadStateResponse tid \<lparr>AgentState.messages = JArr xs, AgentState.state = st\<rparr>
          = Inr r \<and>
        threadExists r = (xs \<noteq> []) \<and>
        parsed_length_positive (LoadStateResponse.messages r) = Inr (threadExists r)"
  by (simp add: createLoadStateResponse_array parsed_length_positive_array
      del: JSON_stringify.simps)

text \<open>
  Claim C3. For an agent state whose \<^verbatim>\<open>messages\<close> array has N > 0 entries, the
  response has \<^verbatim>\<open>threadExists\<close> true, and parsing its \<^verbatim>\<open>messages\<close> text gives an
  array of exactly N entries, the i-th of which is the i-th entry of the input.
\<close>

theorem messages_round_trip:
  assumes "0 < length xs"
  shows "\<exists>r. createLoadStateResponse tid
               \<lparr>AgentState.messages = JArr xs, AgentState.state = st\<rparr> = Inr r \<and>
             threadExists r \<and>
             (\<exists>ys. JSON_parse (LoadStateResponse.messages r) = Some (JArr ys) \<and>
                   length ys = length xs \<and> (\<forall>i < length xs. ys ! i = xs ! i))"
  using assms
  by (simp add: createLoadStateResponse_array JSON_parse_stringify
      del: JSON_stringify.simps)

theorem messages_round_trip_witness:
  "\<exists>r. createLoadStateResponse ''t1''
          \<lparr>AgentState.messages =
             JArr [JObj [(''id'', JStr ''1''), (''role'', JStr ''user''),
                         (''content'', JStr ''Hello'')],
                   JObj [(''id'', JStr ''2''), (''role'', JStr ''assistant''),
                         (''content'', JStr ''Hi'')]],
           AgentState.state = JObj []\<rparr> = Inr r \<and>
        threadExists r \<and>
        JSON_parse (LoadStateResponse.messages r) =
          Some (JArr [JObj [(''id'', JStr ''1''), (''role'', JStr ''user''),
                            (''content'', JStr ''Hello'')],
                      JObj [(''id'', JStr ''2''), (''role'', JStr ''assistant''),
                            (''content'', JStr ''Hi'')]])"
proof -
  let ?xs = "[JObj [(''id'', JStr ''1''), (''role'', JStr ''user''),
                    (''content'', JStr ''Hello'')],
              JObj [(''id'', JStr ''2''), (''role'', JStr ''assistant''),
                    (''content'', JStr ''Hi'')]]"
  have pos: "0 < length ?xs" by simp
  from messages_round_trip [OF pos, of "''t1''" "JObj []"]
  obtain r ys where r: "createLoadStateResponse ''t1''
          \<lparr>AgentState.messages = JArr ?xs, AgentState.state = JObj []\<rparr> = Inr r"
    and t: "threadExists r"
    and p: "JSON_parse (LoadStateResponse.messages r) = Some (JArr ys)"
    and l: "length ys = length ?xs" and e: "\<forall>i < length ?xs. ys ! i = ?xs ! i"
    by blast
  from l e have "ys = ?xs" by (simp add: list_eq_iff_nth_eq)
  with r t p show ?thesis by blast
qed

text \<open>
  Claim C6. \<^verbatim>\<open>createLoadStateResponse\<close> is a function of its two arguments alone. On
  every thread identifier and every agent state whose \<^verbatim>\<open>messages\<close> is an array it
  returns a response and throws nothing; the response carries the identifier and the
  non-emptiness of the array, and its \<^verbatim>\<open>messages\<close> and \<^verbatim>\<open>state\<close> fields are JSON
  texts of the two inputs: \<^verbatim>\<open>JSON.parse\<close> reads each of them back to the value it
  was written from.
\<close>

theorem createLoadStateResponse_total:
  "\<exists>r. createLoadStateResponse tid \<lparr>AgentState.messages = JArr xs, AgentState.state = st\<rparr>
          = Inr r \<and>
        threadId r = tid \<and>
        threadExists r = (0 < length xs) \<and>
        JSON_parse (LoadStateResponse.messages r) = Some (JArr xs) \<and>
        JSON_parse (LoadStateResponse.state r) = Some st"
  by (simp add: createLoadStateResponse_array JSON_parse_stringify
      del: JSON_stringify.simps)

text \<open>
  The composer does not throw on anything the fetch client returns either: where
  \<^verbatim>\<open>.length > 0\<close> could throw, the log line of the client has thrown before.
\<close>

lemma ToString_value_greater_than_zero:
  "ToString v = Inr s \<Longrightarrow> \<exists>b. value_greater_than_zero (Some v) = Inr b"
  by (cases v) (auto split: if_splits)

lemma template_ToString_greater_than_zero:
  "template_ToString len = Inr s \<Longrightarrow> \<exists>b. greater_than_zero len = Inr b"
proof (cases len)
  case (Count n)
  then show ?thesis by simp
next
  case (Property p)
  assume "template_ToString len = Inr s"
  with Property show ?thesis
    using ToString_value_greater_than_zero [of _ s] by (cases p) auto
qed

lemma read_state_composable:
  assumes "read_state data = Inr s"
  shows "\<exists>r. createLoadStateResponse tid s = Inr r"
proof -
  from assms obtain dm len logged ds where
    dm: "get_prop (Some data) ''messages'' = Inr dm" and
    len: "js_length dm = Inr len" and
    logged: "template_ToString len = Inr logged" and
    s: "s = \<lparr>AgentState.messages = or_else dm (JArr []),
             AgentState.state = or_else ds (JObj [])\<rparr>"
    by (auto simp add: read_state_def split: sum.splits)
  from len obtain v where v: "dm = Some v" by (cases dm) auto
  from template_ToString_greater_than_zero [OF logged]
  obtain b where b: "greater_than_zero len = Inr b" by blast
  show ?thesis
  proof (cases "truthy v")
    case True
    with v s len b show ?thesis
      by (simp add: createLoadStateResponse_def or_else_def)
  next
    case False
    with v s show ?thesis
      by (simp add: createLoadStateResponse_def or_else_def)
  qed
qed

lemma compose_after_load_never_throws:
  "\<exists>r. createLoadStateResponse tid
          (fst (loadStateFromAgent fetch agentUrl tid' timeoutMs)) = Inr r"
proof (cases "fst (try_loadStateFromAgent fetch agentUrl tid'
                (case timeoutMs of None \<Rightarrow> 5000 | Some t \<Rightarrow> t))")
  case (Inl e)
  then show ?thesis
    by (simp add: loadStateFromAgent_state createLoadStateResponse_emptyState)
next
  case (Inr s)
  then have "s = emptyState \<or> (\<exists>data. read_state data = Inr s)"
    by (auto simp add: try_outcome split: sum.splits if_splits)
  then show ?thesis
    using Inr read_state_composable [of _ s tid]
    by (auto simp add: loadStateFromAgent_state createLoadStateResponse_emptyState)
qed

text \<open>
  A successful call whose body has a non-empty \<^verbatim>\<open>messages\<close> array hands that array
  to the composer unchanged.
\<close>

lemma successful_load_keeps_messages:
  assumes "fetch (load_state_request agentUrl tid)
             (case timeoutMs of None \<Rightarrow> 5000 | Some t \<Rightarrow> t) = Inr response"
    and "ok response"
    and "json_outcome response = Inr (JObj kvs)"
    and "own_property kvs ''messages'' = Some (JArr xs)"
    and "xs \<noteq> []"
  shows "AgentState.messages (fst (loadStateFromAgent fetch agentUrl tid timeoutMs)) = JArr xs"
  using assms
  by (simp add: loadStateFromAgent_state try_outcome read_state_def or_else_def
      split: sum.splits)






end
